theory Spec2Isabelle
  imports Complex_Main "HOL-Library.Word" "HOL-Library.Sublist"
begin

section \<open>Data model\<close>

text \<open>
  The two source modules, \<^verbatim>\<open>connector/pairing.py\<close> (class \<^verbatim>\<open>PairingManager\<close>) and
  \<^verbatim>\<open>services/device.py\<close> (class \<^verbatim>\<open>DeviceManager\<close>), are coroutines that talk to
  collaborators: the radio transport (\<^verbatim>\<open>BleakScanner\<close>, \<^verbatim>\<open>BleakClient\<close>), the config
  object of the connector, its command manager, its state manager, its logger and its
  console. The embedding threads one record, \<open>world\<close>, through every operation. It holds
  the attributes the two classes own, the config object, and the trace of everything
  the operation did to a collaborator.
\<close>

type_synonym byte = "8 word"

datatype side = Left | Right

text \<open>
  An exception is an instance of Python's class \<^verbatim>\<open>Exception\<close> with its message: what
  \<^verbatim>\<open>except Exception\<close> catches. The signals that derive from \<^verbatim>\<open>BaseException\<close> only
  (a keyboard interrupt, a cancellation) end the coroutine from outside and are not part
  of the embedding.
\<close>

datatype exn = Exception string

text \<open>An advertised device as \<^verbatim>\<open>BleakScanner.discover\<close> reports it; its name may be \<^verbatim>\<open>None\<close>.\<close>

record device =
  dev_address :: string
  dev_name :: "string option"
  dev_rssi :: int

text \<open>The dictionary \<^verbatim>\<open>{'address': .., 'name': .., 'rssi': ..}\<close> kept per side.\<close>

record unit_info =
  info_address :: string
  info_name :: string
  info_rssi :: int

type_synonym discovery = "side \<rightharpoonup> unit_info"

text \<open>The fields of \<^verbatim>\<open>connector.config\<close> that the code reads and writes.\<close>

record config =
  left_address :: "string option"
  right_address :: "string option"
  left_name :: "string option"
  right_name :: "string option"
  left_paired :: bool
  right_paired :: bool

datatype level = Debug | Info | Warning | Error

text \<open>The awaited calls on collaborators, each of which may raise.\<close>

datatype call =
    Discover real
  | Connect string real
  | Pairing string
  | Disconnect string
  | Save
  | HandleStateChange side
  | SendCommand "byte list"
  | UpdateStatus

text \<open>
  One entry of the trace: a collaborator call with the exception it raised (if any), a
  reading of \<^verbatim>\<open>client.is_connected\<close> or of the event loop's clock, a log entry (its
  level; the text is not recorded), a line on the console, a sleep.
\<close>

datatype event =
    Ev call "exn option"
  | IsConnected string bool
  | LoopTime real
  | Log level
  | Print
  | Sleep nat

text \<open>
  What the collaborators answer. Every answer may depend on the moment of the call (the
  number of trace entries so far), so an environment can make any call fail at any
  time. Logging, printing, sleeping, reading \<^verbatim>\<open>is_connected\<close> and reading the clock do
  not raise, and no collaborator assigns the attributes of the two managers or the
  fields of the config object.
  \<open>handle_state_change\<close> answers with the truth value of the state it returns;
  \<open>send_command\<close> with the response frame, or \<^verbatim>\<open>None\<close>.
\<close>

record env =
  discover :: "nat \<Rightarrow> real \<Rightarrow> exn + device list"
  connect :: "nat \<Rightarrow> string \<Rightarrow> real \<Rightarrow> exn + unit"
  is_connected :: "nat \<Rightarrow> string \<Rightarrow> bool"
  pair :: "nat \<Rightarrow> string \<Rightarrow> exn + unit"
  disconnect :: "nat \<Rightarrow> string \<Rightarrow> exn + unit"
  save :: "nat \<Rightarrow> config \<Rightarrow> exn + unit"
  handle_state_change :: "nat \<Rightarrow> side \<Rightarrow> exn + bool"
  send_command :: "nat \<Rightarrow> byte list \<Rightarrow> exn + byte list option"
  update_status :: "nat \<Rightarrow> exn + unit"
  loop_time :: "nat \<Rightarrow> real"

text \<open>
  The constants of \<^verbatim>\<open>utils.constants\<close> that \<^verbatim>\<open>set_silent_mode\<close> uses. The module is not
  part of the sources at hand, so the two bytes are parameters.
\<close>

record constants =
  DASHBOARD_OPEN :: byte
  COMMAND_RESPONSE :: byte

text \<open>
  Modelled from the spec: the Config Store. The class of \<^verbatim>\<open>connector.config\<close> is not
  part of the sources at hand. The spec gives it typed fields with get and set and an
  explicit \<^verbatim>\<open>save()\<close> forcing durability: assigning a field changes the object in
  memory (\<open>config\<close>), and a \<^verbatim>\<open>save()\<close> that completes copies the object to the durable
  record (\<open>stored\<close>); a \<^verbatim>\<open>save()\<close> that raises stores nothing.
\<close>

record world =
  config :: config
  stored :: config
  discovery_cache :: discovery
  last_scan :: real
  silent_mode :: bool
  trace :: "event list"

section \<open>Coroutines as state transformers that may raise\<close>

type_synonym 'a prog = "world \<Rightarrow> (exn + 'a) \<times> world"

definition ret :: "'a \<Rightarrow> 'a prog" where
  "ret x = (\<lambda>w. (Inr x, w))"

definition throw :: "exn \<Rightarrow> 'a prog" where
  "throw e = (\<lambda>w. (Inl e, w))"

definition bnd :: "'a prog \<Rightarrow> ('a \<Rightarrow> 'b prog) \<Rightarrow> 'b prog" where
  "bnd m f = (\<lambda>w. case m w of (Inl e, w') \<Rightarrow> (Inl e, w') | (Inr x, w') \<Rightarrow> f x w')"

definition seq :: "unit prog \<Rightarrow> 'b prog \<Rightarrow> 'b prog" where
  "seq m k = bnd m (\<lambda>_. k)"

text \<open>\<^verbatim>\<open>try: m  except Exception as e: h(e)\<close>\<close>

definition try_except :: "'a prog \<Rightarrow> (exn \<Rightarrow> 'a prog) \<Rightarrow> 'a prog" where
  "try_except m h = (\<lambda>w. case m w of (Inl e, w') \<Rightarrow> h e w' | (Inr x, w') \<Rightarrow> (Inr x, w'))"

text \<open>
  A block that may execute \<^verbatim>\<open>return v\<close> yields \<open>Some v\<close>; a block that runs to its end
  yields \<open>None\<close>, and the statements after it run.
\<close>

definition or_else :: "'r option prog \<Rightarrow> 'r option prog \<Rightarrow> 'r option prog" where
  "or_else m k = bnd m (\<lambda>r. case r of Some v \<Rightarrow> ret (Some v) | None \<Rightarrow> k)"

definition emit :: "event \<Rightarrow> unit prog" where
  "emit ev = (\<lambda>w. (Inr (), w\<lparr>trace := trace w @ [ev]\<rparr>))"

definition log :: "level \<Rightarrow> string \<Rightarrow> unit prog" where
  "log l msg = emit (Log l)"

definition console_print :: "string \<Rightarrow> unit prog" where
  "console_print msg = emit Print"

definition sleep :: "nat \<Rightarrow> unit prog" where
  "sleep n = emit (Sleep n)"

text \<open>Reading the attributes of \<^verbatim>\<open>self\<close> and of the connector.\<close>

definition self :: "world prog" where
  "self = (\<lambda>w. (Inr w, w))"

definition modify :: "(world \<Rightarrow> world) \<Rightarrow> unit prog" where
  "modify f = (\<lambda>w. (Inr (), f w))"

definition raised :: "exn + 'a \<Rightarrow> exn option" where
  "raised r = (case r of Inl e \<Rightarrow> Some e | Inr _ \<Rightarrow> None)"

text \<open>An awaited call: the environment answers for this moment, the trace records it.\<close>

definition now :: "world \<Rightarrow> nat" where
  "now w = length (trace w)"

definition await :: "call \<Rightarrow> (nat \<Rightarrow> exn + 'a) \<Rightarrow> 'a prog" where
  "await c answer = (\<lambda>w. let r = answer (now w) in (r, w\<lparr>trace := trace w @ [Ev c (raised r)]\<rparr>))"

definition str_exn :: "exn \<Rightarrow> string" where
  "str_exn e = (case e of Exception msg \<Rightarrow> msg)"

section \<open>services/device.py\<close>






section \<open>connector/pairing.py\<close>

text \<open>\<^verbatim>\<open>marker in name\<close> on strings: \<open>marker\<close> occurs in \<open>name\<close> as a contiguous piece.\<close>

definition str_in :: "string \<Rightarrow> string \<Rightarrow> bool" where
  "str_in marker name = sublist marker name"

definition client_is_connected :: "env \<Rightarrow> string \<Rightarrow> bool prog" where
  "client_is_connected env address =
     (\<lambda>w. let c = is_connected env (now w) address
          in (Inr c, w\<lparr>trace := trace w @ [IsConnected address c]\<rparr>))"

definition clock :: "env \<Rightarrow> real prog" where
  "clock env = (\<lambda>w. let t = loop_time env (now w) in (Inr t, w\<lparr>trace := trace w @ [LoopTime t]\<rparr>))"

text \<open>
  Modelled from the spec: \<^verbatim>\<open>config.save()\<close>, whose class is not part of the sources at
  hand. A call that completes makes the durable record equal to the config object; a
  call that raises leaves the durable record as it was.
\<close>

definition config_save :: "env \<Rightarrow> unit prog" where
  "config_save env =
     (\<lambda>w. let r = save env (now w) (config w)
          in (r, w\<lparr>trace := trace w @ [Ev Save (raised r)],
                    stored := (case r of Inl _ \<Rightarrow> stored w | Inr _ \<Rightarrow> config w)\<rparr>))"

definition set_paired :: "bool \<Rightarrow> unit prog" where
  "set_paired is_left =
     modify (\<lambda>w. w\<lparr>config := (if is_left then (config w)\<lparr>left_paired := True\<rparr>
                                else (config w)\<lparr>right_paired := True\<rparr>)\<rparr>)"

subsection \<open>discover_glasses\<close>

text \<open>
  The loop over the scanned devices. The pairing lock that the source holds meanwhile
  orders concurrent coroutines and has no effect on one of them alone.
\<close>

fun classify :: "device list \<Rightarrow> discovery \<Rightarrow> discovery prog" where
  "classify [] discovered = ret discovered"
| "classify (d # ds) discovered =
     (case dev_name d of
        None \<Rightarrow> classify ds discovered
      | Some n \<Rightarrow>
          if n = [] then classify ds discovered
          else if str_in ''_L_'' n then
            seq (log Info (''Found left glass: '' @ n))
                (classify ds (discovered(Left \<mapsto>
                   \<lparr>info_address = dev_address d, info_name = n, info_rssi = dev_rssi d\<rparr>)))
          else if str_in ''_R_'' n then
            seq (log Info (''Found right glass: '' @ n))
                (classify ds (discovered(Right \<mapsto>
                   \<lparr>info_address = dev_address d, info_name = n, info_rssi = dev_rssi d\<rparr>)))
          else classify ds discovered)"

definition discover_glasses_try :: "env \<Rightarrow> real \<Rightarrow> discovery prog" where
  "discover_glasses_try env timeout =
     seq (log Info ''Starting glasses discovery...'')
    (bnd (await (Discover timeout) (\<lambda>t. discover env t timeout)) (\<lambda>devices.
     bnd (classify devices Map.empty) (\<lambda>discovered.
     seq (modify (\<lambda>w. w\<lparr>discovery_cache := discovered\<rparr>))
    (bnd (clock env) (\<lambda>t.
     seq (modify (\<lambda>w. w\<lparr>last_scan := t\<rparr>))
         (ret discovered))))))"

definition discover_glasses :: "env \<Rightarrow> real \<Rightarrow> discovery prog" where
  "discover_glasses env timeout =
     try_except (discover_glasses_try env timeout)
       (\<lambda>e. seq (log Error (''Discovery failed: '' @ str_exn e)) (ret Map.empty))"

subsection \<open>_attempt_pairing\<close>

text \<open>
  The \<^verbatim>\<open>try\<close> block of one attempt. It yields \<open>Some True\<close> at \<^verbatim>\<open>return True\<close> and
  \<open>None\<close> when \<^verbatim>\<open>client.is_connected\<close> is false and the block ends.
\<close>

definition attempt_try :: "env \<Rightarrow> string \<Rightarrow> string \<Rightarrow> bool \<Rightarrow> bool option prog" where
  "attempt_try env address glass_name is_left =
     seq (await (Connect address 20) (\<lambda>t. connect env t address 20))
    (bnd (client_is_connected env address) (\<lambda>connected.
       if connected then
         seq (log Debug ''Connection established'')
        (seq (await (Pairing address) (\<lambda>t. pair env t address))
        (seq (log Debug ''Pairing successful'')
        (seq (set_paired is_left)
        (seq (config_save env)
        (seq (await (Disconnect address) (\<lambda>t. disconnect env t address))
        (seq (sleep 1)
        (seq (console_print (glass_name @ '' paired and connected!''))
        (bnd (await (HandleStateChange (if glass_name = ''Left glass'' then Left else Right))
                (\<lambda>t. handle_state_change env t (if glass_name = ''Left glass'' then Left else Right)))
           (\<lambda>initial_state.
         seq (if \<not> initial_state
              then log Warning (''Could not get initial state for '' @ glass_name)
              else ret ())
             (ret (Some True)))))))))))
       else ret None))"

definition attempt_except :: "int \<Rightarrow> int \<Rightarrow> exn \<Rightarrow> bool option prog" where
  "attempt_except attempt max_attempts e =
     seq (log Error (''Connection attempt failed: '' @ str_exn e))
    (seq (if attempt < max_attempts
          then seq (console_print ''Retrying connection...'') (sleep 2)
          else ret ())
         (ret None))"

text \<open>One round of the loop: the \<^verbatim>\<open>try\<close> block with its handler.\<close>

definition attempt :: "env \<Rightarrow> string \<Rightarrow> string \<Rightarrow> bool \<Rightarrow> int \<Rightarrow> int \<Rightarrow> bool option prog" where
  "attempt env address glass_name is_left attempt_no max_attempts =
     try_except (attempt_try env address glass_name is_left)
                (attempt_except attempt_no max_attempts)"

text \<open>\<^verbatim>\<open>for attempt in range(1, max_attempts + 1)\<close>, over the list of attempt numbers.\<close>

fun attempt_loop :: "env \<Rightarrow> string \<Rightarrow> string \<Rightarrow> bool \<Rightarrow> int \<Rightarrow> int list \<Rightarrow> bool option prog" where
  "attempt_loop env address glass_name is_left max_attempts [] = ret None"
| "attempt_loop env address glass_name is_left max_attempts (attempt_no # rest) =
     or_else (attempt env address glass_name is_left attempt_no max_attempts)
             (attempt_loop env address glass_name is_left max_attempts rest)"

text \<open>
  The client argument of the source is used for its address only (each attempt makes
  its own client), so the address is the parameter.
\<close>

definition attempt_pairing_try :: "env \<Rightarrow> string \<Rightarrow> string \<Rightarrow> int \<Rightarrow> bool prog" where
  "attempt_pairing_try env address glass_name max_attempts =
     seq (log Debug (''Starting first-time pairing for '' @ glass_name))
    (seq (console_print (''Performing first-time pairing for '' @ glass_name @ ''...''))
    (bnd (attempt_loop env address glass_name (glass_name = ''Left glass'') max_attempts
            [1..max_attempts])
       (\<lambda>r. case r of Some v \<Rightarrow> ret v | None \<Rightarrow> ret False)))"

definition attempt_pairing :: "env \<Rightarrow> string \<Rightarrow> string \<Rightarrow> int \<Rightarrow> bool prog" where
  "attempt_pairing env address glass_name max_attempts =
     try_except (attempt_pairing_try env address glass_name max_attempts)
       (\<lambda>e. seq (log Error (''Pairing attempt failed: '' @ str_exn e)) (ret False))"

subsection \<open>verify_pairing\<close>

definition side_name :: "side \<Rightarrow> string" where
  "side_name s = (case s of Left \<Rightarrow> ''left'' | Right \<Rightarrow> ''right'')"

text \<open>The first loop: connect and disconnect, per side.\<close>

fun first_verification :: "env \<Rightarrow> (side \<times> string) list \<Rightarrow> bool option prog" where
  "first_verification env [] = ret None"
| "first_verification env ((side, addr) # rest) =
     or_else
       (try_except
          (seq (await (Connect addr 5) (\<lambda>t. connect env t addr 5))
          (seq (await (Disconnect addr) (\<lambda>t. disconnect env t addr))
          (seq (log Debug (''Successfully verified '' @ side_name side @ '' glass pairing''))
               (ret None))))
          (\<lambda>e. seq (log Warning (''Could not verify '' @ side_name side @ '' glass pairing: '' @ str_exn e))
                   (ret (Some False))))
       (first_verification env rest)"

text \<open>The second loop: connect, pair and disconnect, then set the side's flag.\<close>

fun second_verification :: "env \<Rightarrow> (side \<times> string) list \<Rightarrow> bool option prog" where
  "second_verification env [] = ret None"
| "second_verification env ((side, addr) # rest) =
     or_else
       (try_except
          (seq (await (Connect addr 5) (\<lambda>t. connect env t addr 5))
          (seq (await (Pairing addr) (\<lambda>t. pair env t addr))
          (seq (await (Disconnect addr) (\<lambda>t. disconnect env t addr))
          (seq (log Debug (''Successfully verified '' @ side_name side @ '' glass pairing''))
          (seq (set_paired (side = Left))
               (ret None))))))
          (\<lambda>e. seq (log Warning (''Could not verify '' @ side_name side @ '' glass pairing: '' @ str_exn e))
                   (ret (Some False))))
       (second_verification env rest)"

text \<open>
  The statements after the first loop, for the two addresses \<open>la\<close> and \<open>ra\<close>: they
  yield \<open>Some True\<close> or \<open>Some False\<close> at a \<^verbatim>\<open>return\<close>.
\<close>

definition first_time_pairing :: "env \<Rightarrow> string \<Rightarrow> string \<Rightarrow> bool option prog" where
  "first_time_pairing env la ra =
     seq (log Info ''Pairing verification successful'')
    (bnd self (\<lambda>s.
       if \<not> left_paired (config s) \<or> \<not> right_paired (config s) then
         seq (log Info ''First time connection detected!'')
        (seq (log Info ''The glasses will be paired with your device. This only happens once.'')
        (seq (log Info ''Please wait while the pairing is completed...'')
        (seq (log Debug ''Verifying pairing...'')
        (or_else (second_verification env [(Left, la), (Right, ra)])
        (seq (config_save env)
        (seq (log Info ''Pairing verification successful'')
             (ret (Some True))))))))
       else ret (Some True)))"

text \<open>
  \<^verbatim>\<open>not address\<close> holds of \<^verbatim>\<open>None\<close> and of the empty string. Both loops read the two
  addresses from the config object; nothing between the two readings assigns them, so
  the model reads them once.
\<close>

definition verify_pairing_try :: "env \<Rightarrow> bool prog" where
  "verify_pairing_try env =
     seq (log Debug ''Verifying pairing...'')
    (bnd self (\<lambda>s.
       case (left_address (config s), right_address (config s)) of
         (Some (a # la), Some (b # ra)) \<Rightarrow>
           bnd (or_else (first_verification env [(Left, a # la), (Right, b # ra)])
                        (first_time_pairing env (a # la) (b # ra)))
             (\<lambda>r. case r of Some v \<Rightarrow> ret v | None \<Rightarrow> ret True)
       | _ \<Rightarrow> seq (log Debug ''No saved addresses found'') (ret False)))"

definition verify_pairing :: "env \<Rightarrow> bool prog" where
  "verify_pairing env =
     try_except (verify_pairing_try env)
       (\<lambda>e. seq (log Error (''Error verifying pairing: '' @ str_exn e)) (ret False))"

subsection \<open>pair_glasses\<close>





subsection \<open>unpair_glasses\<close>

definition unpair_glasses_try :: "unit prog" where
  "unpair_glasses_try =
     seq (modify (\<lambda>w. w\<lparr>config := (config w)
            \<lparr>left_paired := False, right_paired := False,
             left_address := None, right_address := None,
             left_name := None, right_name := None\<rparr>\<rparr>))
    (seq (log Info ''Unpaired from glasses'')
         (ret ()))"

definition unpair_glasses :: "unit prog" where
  "unpair_glasses =
     try_except unpair_glasses_try
       (\<lambda>e. seq (log Error (''Error unpairing: '' @ str_exn e)) (ret ()))"

section \<open>Observations on traces\<close>

text \<open>
  What an operation did to its collaborators is read off the trace: the number of
  entries of a kind after the operation, against the number before it.
\<close>

definition number_of :: "(event \<Rightarrow> bool) \<Rightarrow> event list \<Rightarrow> nat" where
  "number_of P tr = length (filter P tr)"


fun is_connect :: "event \<Rightarrow> bool" where
  "is_connect (Ev (Connect _ _) _) = True"
| "is_connect _ = False"

fun is_pair :: "event \<Rightarrow> bool" where
  "is_pair (Ev (Pairing _) _) = True"
| "is_pair _ = False"

fun is_disconnect :: "event \<Rightarrow> bool" where
  "is_disconnect (Ev (Disconnect _) _) = True"
| "is_disconnect _ = False"

fun is_save :: "event \<Rightarrow> bool" where
  "is_save (Ev Save _) = True"
| "is_save _ = False"


text \<open>A collaborator call of any kind.\<close>

fun is_call :: "event \<Rightarrow> bool" where
  "is_call (Ev _ _) = True"
| "is_call _ = False"

text \<open>A collaborator call that raised.\<close>

fun is_raise :: "event \<Rightarrow> bool" where
  "is_raise (Ev _ (Some _)) = True"
| "is_raise _ = False"

text \<open>A disconnect that completed.\<close>

fun is_disconnected :: "event \<Rightarrow> bool" where
  "is_disconnected (Ev (Disconnect _) None) = True"
| "is_disconnected _ = False"

text \<open>The query of the initial state, completed: the last step of an attempt that may raise.\<close>

fun is_state_known :: "event \<Rightarrow> bool" where
  "is_state_known (Ev (HandleStateChange _) None) = True"
| "is_state_known _ = False"


text \<open>
  The two ways an attempt of \<^verbatim>\<open>_attempt_pairing\<close> ends without \<^verbatim>\<open>return True\<close>: a
  call raised, or the client was found not connected.
\<close>

fun is_abandon :: "event \<Rightarrow> bool" where
  "is_abandon (Ev _ (Some _)) = True"
| "is_abandon (IsConnected _ False) = True"
| "is_abandon _ = False"



text \<open>A log entry of level error or warning.\<close>

fun is_complaint :: "event \<Rightarrow> bool" where
  "is_complaint (Log Error) = True"
| "is_complaint (Log Warning) = True"
| "is_complaint _ = False"


text \<open>\<^verbatim>\<open>bool(address)\<close>: the address is neither \<^verbatim>\<open>None\<close> nor the empty string.\<close>

definition truthy :: "string option \<Rightarrow> bool" where
  "truthy a = (case a of None \<Rightarrow> False | Some s \<Rightarrow> s \<noteq> [])"

text \<open>The flag of the side that \<^verbatim>\<open>_attempt_pairing\<close> is called for.\<close>

definition paired_flag :: "string \<Rightarrow> config \<Rightarrow> bool" where
  "paired_flag glass_name c = (if glass_name = ''Left glass'' then left_paired c else right_paired c)"



text \<open>In a piece of trace, every call that raised is followed at once by an error or warning entry.\<close>

fun logged :: "event list \<Rightarrow> bool" where
  "logged [] = True"
| "logged [e] = (\<not> is_raise e)"
| "logged (e # e' # es) = ((if is_raise e then is_complaint e' else True) \<and> logged (e' # es))"

text \<open>
  The later state's trace continues the earlier one's, and in what was added every call
  that raised is answered at once by an error or warning entry.
\<close>

definition answered :: "world \<Rightarrow> world \<Rightarrow> bool" where
  "answered w w1 =
     (take (length (trace w)) (trace w1) = trace w
      \<and> logged (drop (length (trace w)) (trace w1)))"

text \<open>
  Between the two states the side's flag in the durable record is not lost, and it is set
  if a disconnect was invoked.
\<close>

definition saved_before_disconnect :: "string \<Rightarrow> world \<Rightarrow> world \<Rightarrow> bool" where
  "saved_before_disconnect glass_name w w1 =
     ((paired_flag glass_name (stored w) \<longrightarrow> paired_flag glass_name (stored w1))
      \<and> (number_of is_disconnect (trace w) < number_of is_disconnect (trace w1)
            \<longrightarrow> paired_flag glass_name (stored w1)))"

text \<open>
  The classification that \<^verbatim>\<open>discover_glasses\<close> is specified to make. A left unit has a
  non-empty name that contains \<^verbatim>\<open>_L_\<close>; a right unit has a non-empty name that contains
  \<^verbatim>\<open>_R_\<close> and not \<^verbatim>\<open>_L_\<close>. Of the devices of a scan that satisfy a test, the one
  observed last wins.
\<close>

definition is_left_unit :: "device \<Rightarrow> bool" where
  "is_left_unit d = (case dev_name d of None \<Rightarrow> False | Some n \<Rightarrow> n \<noteq> [] \<and> str_in ''_L_'' n)"

definition is_right_unit :: "device \<Rightarrow> bool" where
  "is_right_unit d =
     (case dev_name d of None \<Rightarrow> False
      | Some n \<Rightarrow> n \<noteq> [] \<and> \<not> str_in ''_L_'' n \<and> str_in ''_R_'' n)"

definition unit_of :: "device \<Rightarrow> unit_info" where
  "unit_of d =
     \<lparr>info_address = dev_address d,
      info_name = (case dev_name d of None \<Rightarrow> [] | Some n \<Rightarrow> n),
      info_rssi = dev_rssi d\<rparr>"

definition latest :: "(device \<Rightarrow> bool) \<Rightarrow> device list \<Rightarrow> unit_info option" where
  "latest P ds = map_option unit_of (find P (rev ds))"

text \<open>The dictionary that the loop of \<^verbatim>\<open>discover_glasses\<close> builds, and the number of its log entries.\<close>

fun found :: "device list \<Rightarrow> discovery \<Rightarrow> discovery" where
  "found [] acc = acc"
| "found (d # ds) acc =
     found ds (if is_left_unit d then acc(Left \<mapsto> unit_of d)
               else if is_right_unit d then acc(Right \<mapsto> unit_of d)
               else acc)"

definition hits :: "device list \<Rightarrow> nat" where
  "hits ds = length (filter (\<lambda>d. is_left_unit d \<or> is_right_unit d) ds)"

text \<open>
  An environment in which, for the address, connecting, pairing and saving complete and
  every disconnect raises.
\<close>

definition disconnect_always_fails :: "env \<Rightarrow> string \<Rightarrow> bool" where
  "disconnect_always_fails env address =
     (\<forall>t. connect env t address 20 = Inr () \<and> is_connected env t address
          \<and> pair env t address = Inr () \<and> (\<forall>c. save env t c = Inr ())
          \<and> (\<exists>e. disconnect env t address = Inl e))"

section \<open>Concrete environments and states\<close>

text \<open>The state after both constructors, with nothing configured.\<close>

definition blank_config :: config where
  "blank_config =
     \<lparr>left_address = None, right_address = None, left_name = None, right_name = None,
      left_paired = False, right_paired = False\<rparr>"

definition fresh_world :: world where
  "fresh_world =
     \<lparr>config = blank_config, stored = blank_config, discovery_cache = Map.empty,
      last_scan = 0, silent_mode = False, trace = []\<rparr>"

text \<open>Two units in range, every call completes, the command is acknowledged with \<open>0xC9\<close>.\<close>

definition two_units :: "device list" where
  "two_units =
     [\<lparr>dev_address = ''AA'', dev_name = Some ''G1_L_42'', dev_rssi = -40\<rparr>,
      \<lparr>dev_address = ''BB'', dev_name = Some ''G1_R_42'', dev_rssi = -42\<rparr>]"

definition test_constants :: constants where
  "test_constants = \<lparr>DASHBOARD_OPEN = 0x26, COMMAND_RESPONSE = 0xC9\<rparr>"

definition calm_env :: env where
  "calm_env =
     \<lparr>discover = (\<lambda>h t. Inr two_units),
      connect = (\<lambda>h a t. Inr ()),
      is_connected = (\<lambda>h a. True),
      pair = (\<lambda>h a. Inr ()),
      disconnect = (\<lambda>h a. Inr ()),
      save = (\<lambda>h c. Inr ()),
      handle_state_change = (\<lambda>h d. Inr True),
      send_command = (\<lambda>h f. Inr (Some [0x26, 0xC9])),
      update_status = (\<lambda>h. Inr ()),
      loop_time = (\<lambda>h. 100)\<rparr>"

text \<open>The client never reports a connection.\<close>

definition unconnected_env :: env where
  "unconnected_env = calm_env\<lparr>is_connected := (\<lambda>t a. False)\<rparr>"

text \<open>Every disconnect raises.\<close>

definition stuck_env :: env where
  "stuck_env = calm_env\<lparr>disconnect := (\<lambda>t a. Inl (Exception ''disconnect failed''))\<rparr>"

text \<open>The dispatcher never gets a response.\<close>

definition mute_env :: env where
  "mute_env = calm_env\<lparr>send_command := (\<lambda>t f. Inr None)\<rparr>"

text \<open>The status refresh raises.\<close>

definition unrefreshed_env :: env where
  "unrefreshed_env = calm_env\<lparr>update_status := (\<lambda>t. Inl (Exception ''refresh failed''))\<rparr>"

text \<open>One device in range, whose name carries both markers.\<close>

definition both_markers_env :: env where
  "both_markers_env =
     calm_env\<lparr>discover := (\<lambda>t timeout.
       Inr [\<lparr>dev_address = ''AA'', dev_name = Some ''G1_L_R_7'', dev_rssi = -40\<rparr>])\<rparr>"

text \<open>Both units in the cache, scanned 50 seconds before the clock of \<open>calm_env\<close> reads 100.\<close>

definition cached_world :: world where
  "cached_world =
     fresh_world\<lparr>discovery_cache :=
         [Left \<mapsto> \<lparr>info_address = ''AA'', info_name = ''G1_L_42'', info_rssi = -40\<rparr>,
          Right \<mapsto> \<lparr>info_address = ''BB'', info_name = ''G1_R_42'', info_rssi = -42\<rparr>],
       last_scan := 50\<rparr>"

text \<open>Both addresses saved, no side paired yet.\<close>

definition addressed_world :: world where
  "addressed_world =
     fresh_world\<lparr>config := blank_config\<lparr>left_address := Some ''AA'', right_address := Some ''BB''\<rparr>\<rparr>"

section \<open>Reasoning about coroutines\<close>

text \<open>
  \<open>wp m Q w\<close>: running \<open>m\<close> from \<open>w\<close> ends in a result and a state that satisfy \<open>Q\<close>.
  The rules below walk through a coroutine statement by statement.
\<close>

definition wp :: "'a prog \<Rightarrow> ((exn + 'a) \<Rightarrow> world \<Rightarrow> bool) \<Rightarrow> world \<Rightarrow> bool" where
  "wp m Q w = (case m w of (r, w') \<Rightarrow> Q r w')"

lemma wp_run: "m w = (r, w') \<Longrightarrow> wp m Q w \<Longrightarrow> Q r w'"
  by (simp add: wp_def)

lemma wp_fst_snd: "wp m Q w = Q (fst (m w)) (snd (m w))"
  by (simp add: wp_def split: prod.splits)


lemma wp_bnd_general:
  "wp (bnd m f) Q w = wp m (\<lambda>r w'. case r of Inl e \<Rightarrow> Q (Inl e) w' | Inr x \<Rightarrow> wp (f x) Q w') w"
  by (simp add: wp_def bnd_def split: prod.splits sum.splits)

lemma wp_try_except:
  "wp (try_except m h) Q w = wp m (\<lambda>r w'. case r of Inl e \<Rightarrow> wp (h e) Q w' | Inr x \<Rightarrow> Q (Inr x) w') w"
  by (simp add: wp_def try_except_def split: prod.splits sum.splits)

lemma wp_ret: "wp (ret x) Q w = Q (Inr x) w"
  by (simp add: wp_def ret_def)

lemma wp_throw: "wp (throw e) Q w = Q (Inl e) w"
  by (simp add: wp_def throw_def)

lemma wp_self: "wp self Q w = Q (Inr w) w"
  by (simp add: wp_def self_def)

lemma wp_emit: "wp (emit ev) Q w = Q (Inr ()) (w\<lparr>trace := trace w @ [ev]\<rparr>)"
  by (simp add: wp_def emit_def)

lemma wp_modify: "wp (modify g) Q w = Q (Inr ()) (g w)"
  by (simp add: wp_def modify_def)

lemma wp_await:
  "wp (await c ans) Q w =
     (case ans (now w) of
        Inl e \<Rightarrow> Q (Inl e) (w\<lparr>trace := trace w @ [Ev c (Some e)]\<rparr>)
      | Inr x \<Rightarrow> Q (Inr x) (w\<lparr>trace := trace w @ [Ev c None]\<rparr>))"
  by (simp add: wp_def await_def Let_def raised_def split: sum.splits)

lemma wp_client_is_connected:
  "wp (client_is_connected env a) Q w =
     Q (Inr (is_connected env (now w) a))
       (w\<lparr>trace := trace w @ [IsConnected a (is_connected env (now w) a)]\<rparr>)"
  by (simp add: wp_def client_is_connected_def Let_def)

lemma wp_clock:
  "wp (clock env) Q w =
     Q (Inr (loop_time env (now w))) (w\<lparr>trace := trace w @ [LoopTime (loop_time env (now w))]\<rparr>)"
  by (simp add: wp_def clock_def Let_def)

lemma wp_config_save:
  "wp (config_save env) Q w =
     (case save env (now w) (config w) of
        Inl e \<Rightarrow> Q (Inl e) (w\<lparr>trace := trace w @ [Ev Save (Some e)]\<rparr>)
      | Inr x \<Rightarrow> Q (Inr x) (w\<lparr>trace := trace w @ [Ev Save None], stored := config w\<rparr>))"
  by (simp add: wp_def config_save_def Let_def raised_def split: sum.splits)

lemma wp_if: "wp (if b then m1 else m2) Q w = (if b then wp m1 Q w else wp m2 Q w)"
  by simp

text \<open>The same steps with statements after them.\<close>

lemma wp_bnd_ret: "wp (bnd (ret x) f) Q w = wp (f x) Q w"
  by (simp add: wp_bnd_general wp_ret)

lemma wp_bnd_throw: "wp (bnd (throw e) f) Q w = Q (Inl e) w"
  by (simp add: wp_bnd_general wp_throw)

lemma wp_bnd_self: "wp (bnd self f) Q w = wp (f w) Q w"
  by (simp add: wp_bnd_general wp_self)

lemma wp_bnd_emit: "wp (bnd (emit ev) f) Q w = wp (f ()) Q (w\<lparr>trace := trace w @ [ev]\<rparr>)"
  by (simp add: wp_bnd_general wp_emit)

lemma wp_bnd_modify: "wp (bnd (modify g) f) Q w = wp (f ()) Q (g w)"
  by (simp add: wp_bnd_general wp_modify)

lemma wp_bnd_await:
  "wp (bnd (await c ans) f) Q w =
     (case ans (now w) of
        Inl e \<Rightarrow> Q (Inl e) (w\<lparr>trace := trace w @ [Ev c (Some e)]\<rparr>)
      | Inr x \<Rightarrow> wp (f x) Q (w\<lparr>trace := trace w @ [Ev c None]\<rparr>))"
  by (simp add: wp_bnd_general wp_await split: sum.splits)

lemma wp_bnd_client_is_connected:
  "wp (bnd (client_is_connected env a) f) Q w =
     wp (f (is_connected env (now w) a)) Q
       (w\<lparr>trace := trace w @ [IsConnected a (is_connected env (now w) a)]\<rparr>)"
  by (simp add: wp_bnd_general wp_client_is_connected)

lemma wp_bnd_clock:
  "wp (bnd (clock env) f) Q w =
     wp (f (loop_time env (now w))) Q (w\<lparr>trace := trace w @ [LoopTime (loop_time env (now w))]\<rparr>)"
  by (simp add: wp_bnd_general wp_clock)

lemma wp_bnd_config_save:
  "wp (bnd (config_save env) f) Q w =
     (case save env (now w) (config w) of
        Inl e \<Rightarrow> Q (Inl e) (w\<lparr>trace := trace w @ [Ev Save (Some e)]\<rparr>)
      | Inr x \<Rightarrow> wp (f x) Q (w\<lparr>trace := trace w @ [Ev Save None], stored := config w\<rparr>))"
  by (simp add: wp_bnd_general wp_config_save split: sum.splits)

lemma wp_bnd_if:
  "wp (bnd (if b then m1 else m2) f) Q w = (if b then wp (bnd m1 f) Q w else wp (bnd m2 f) Q w)"
  by simp

lemma wp_bnd_bnd: "wp (bnd (bnd m g) f) Q w = wp (bnd m (\<lambda>x. bnd (g x) f)) Q w"
  by (simp add: wp_bnd_general split: sum.splits cong: sum.case_cong)

lemma wp_bnd_try_except:
  "wp (bnd (try_except m h) f) Q w =
     wp (try_except m h) (\<lambda>r w'. case r of Inl e \<Rightarrow> Q (Inl e) w' | Inr x \<Rightarrow> wp (f x) Q w') w"
  by (rule wp_bnd_general)

lemma now_update [simp]:
  "now (w\<lparr>trace := t\<rparr>) = length t"
  "now (w\<lparr>config := c\<rparr>) = now w"
  "now (w\<lparr>stored := c\<rparr>) = now w"
  "now (w\<lparr>discovery_cache := d\<rparr>) = now w"
  "now (w\<lparr>last_scan := x\<rparr>) = now w"
  "now (w\<lparr>silent_mode := b\<rparr>) = now w"
  by (simp_all add: now_def)

lemma number_of_simps [simp]:
  "number_of P [] = 0"
  "number_of P (xs @ ys) = number_of P xs + number_of P ys"
  "number_of P (x # xs) = (if P x then 1 else 0) + number_of P xs"
  by (simp_all add: number_of_def)

lemma logged_append: "logged xs \<Longrightarrow> logged ys \<Longrightarrow> logged (xs @ ys)"
proof (induction xs rule: logged.induct)
  case 1
  then show ?case by simp
next
  case (2 e)
  then show ?case by (cases ys) simp_all
next
  case (3 e e' es)
  then show ?case by simp
qed


lemma answered_iff: "answered w w1 = (\<exists>evs. trace w1 = trace w @ evs \<and> logged evs)"
proof
  assume "answered w w1"
  then have "trace w1 = trace w @ drop (length (trace w)) (trace w1)"
    and "logged (drop (length (trace w)) (trace w1))"
    by (simp_all add: answered_def, metis append_take_drop_id)
  then show "\<exists>evs. trace w1 = trace w @ evs \<and> logged evs"
    by blast
next
  assume "\<exists>evs. trace w1 = trace w @ evs \<and> logged evs"
  then show "answered w w1"
    by (auto simp add: answered_def)
qed


lemma answered_trans: "answered w1 w2 \<Longrightarrow> answered w2 w3 \<Longrightarrow> answered w1 w3"
  by (auto simp add: answered_iff intro: logged_append)


lemmas wp_rules =
  wp_ret wp_throw wp_self wp_emit wp_modify wp_await wp_client_is_connected wp_clock
  wp_config_save wp_if wp_try_except
  wp_bnd_ret wp_bnd_throw wp_bnd_self wp_bnd_emit wp_bnd_modify wp_bnd_await
  wp_bnd_client_is_connected wp_bnd_clock wp_bnd_config_save wp_bnd_if wp_bnd_bnd
  wp_bnd_try_except
  seq_def or_else_def log_def sleep_def console_print_def set_paired_def

text \<open>The definitions to unfold when a coroutine is run on a given state.\<close>

lemmas run_defs = ret_def throw_def bnd_def seq_def try_except_def or_else_def emit_def
  log_def console_print_def sleep_def modify_def self_def

lemmas env_defs = calm_env_def unconnected_env_def stuck_env_def mute_env_def
  unrefreshed_env_def both_markers_env_def cached_world_def fresh_world_def
  blank_config_def two_units_def test_constants_def

section \<open>One pairing attempt and the retry loop\<close>

lemma attempt_counts:
  "wp (attempt env a g l i m) (\<lambda>r w1.
     number_of is_connect (trace w1) = number_of is_connect (trace w) + 1
     \<and> (r = Inr None \<or> r = Inr (Some True))
     \<and> (r = Inr None \<longrightarrow> number_of is_abandon (trace w1) = number_of is_abandon (trace w) + 1
            \<and> number_of is_state_known (trace w1) = number_of is_state_known (trace w))
     \<and> (r = Inr (Some True) \<longrightarrow> number_of is_abandon (trace w1) = number_of is_abandon (trace w)
            \<and> number_of is_state_known (trace w1) = number_of is_state_known (trace w) + 1)) w"
  by (simp add: attempt_def attempt_try_def attempt_except_def wp_rules split: sum.split)

lemma attempt_loop_counts:
  "wp (attempt_loop env a g l m as) (\<lambda>r w1.
     (r = Inr None \<or> r = Inr (Some True))
     \<and> number_of is_connect (trace w1) \<le> number_of is_connect (trace w) + length as
     \<and> (r = Inr None \<longrightarrow>
            number_of is_abandon (trace w1) = number_of is_abandon (trace w) + length as
          \<and> number_of is_state_known (trace w1) = number_of is_state_known (trace w))
     \<and> (r = Inr (Some True) \<longrightarrow>
            number_of is_abandon (trace w1) < number_of is_abandon (trace w) + length as
          \<and> number_of is_state_known (trace w1) = number_of is_state_known (trace w) + 1
          \<and> number_of is_connect (trace w1) + number_of is_abandon (trace w)
              = number_of is_connect (trace w) + number_of is_abandon (trace w1) + 1)) w"
proof (induction as arbitrary: w)
  case Nil
  show ?case by (simp add: wp_ret)
next
  case (Cons i rest)
  obtain r1 w1 where step: "attempt env a g l i m w = (r1, w1)"
    by fastforce
  note s = wp_run [OF step attempt_counts [of env a g l i m w]]
  show ?case
  proof (cases "r1 = Inr None")
    case True
    obtain r2 w2 where loop: "attempt_loop env a g l m rest w1 = (r2, w2)"
      by fastforce
    note t = wp_run [OF loop Cons.IH [of w1]]
    have "attempt_loop env a g l m (i # rest) w = (r2, w2)"
      using step loop True by (simp add: or_else_def bnd_def)
    then show ?thesis
      using s t True by (auto simp add: wp_def)
  next
    case False
    with s have r1: "r1 = Inr (Some True)"
      by blast
    have "attempt_loop env a g l m (i # rest) w = (r1, w1)"
      using step r1 by (simp add: or_else_def bnd_def ret_def)
    then show ?thesis
      using s r1 by (auto simp add: wp_def)
  qed
qed



lemma attempt_pairing_run:
  assumes "attempt_loop env a g (g = ''Left glass'') m [1..m]
             (w\<lparr>trace := trace w @ [Log Debug, Print]\<rparr>) = (Inr x, w1)"
  shows "attempt_pairing env a g m w = (Inr (case x of Some v \<Rightarrow> v | None \<Rightarrow> False), w1)"
  using assms
  by (simp add: attempt_pairing_def attempt_pairing_try_def run_defs split: option.splits)


text \<open>
  A relation between the state before and the state after that every round of the loop
  establishes, and that is reflexive and transitive, holds across the loop and across
  \<^verbatim>\<open>_attempt_pairing\<close>, provided that log entries and console lines keep it.
\<close>

lemma attempt_loop_invariant:
  assumes step: "\<And>i w. wp (attempt env a g l i m) (\<lambda>r w1. R w w1) w"
    and refl: "\<And>w. R w w"
    and trans: "\<And>w1 w2 w3. R w1 w2 \<Longrightarrow> R w2 w3 \<Longrightarrow> R w1 w3"
  shows "wp (attempt_loop env a g l m as) (\<lambda>r w1. R w w1) w"
proof (induction as arbitrary: w)
  case Nil
  show ?case by (simp add: wp_ret refl)
next
  case (Cons i rest)
  obtain r1 w1 where first: "attempt env a g l i m w = (r1, w1)"
    by fastforce
  obtain r2 w2 where loop: "attempt_loop env a g l m rest w1 = (r2, w2)"
    by fastforce
  have a: "R w w1"
    using wp_run [OF first step] .
  have b: "R w1 w2"
    using wp_run [OF loop Cons.IH] .
  have "snd (attempt_loop env a g l m (i # rest) w) = w1
      \<or> snd (attempt_loop env a g l m (i # rest) w) = w2"
    using first loop by (simp add: or_else_def bnd_def ret_def split: sum.splits option.splits)
  then show ?case
    using a trans [OF a b] by (auto simp add: wp_fst_snd)
qed

lemma attempt_pairing_invariant:
  assumes step: "\<And>i w. wp (attempt env a g (g = ''Left glass'') i m) (\<lambda>r w1. R w w1) w"
    and refl: "\<And>w. R w w"
    and trans: "\<And>w1 w2 w3. R w1 w2 \<Longrightarrow> R w2 w3 \<Longrightarrow> R w1 w3"
    and quiet: "\<And>w. R w (w\<lparr>trace := trace w @ [Log Debug, Print]\<rparr>)"
  shows "wp (attempt_pairing env a g m) (\<lambda>r w1. R w w1) w"
proof -
  let ?w0 = "w\<lparr>trace := trace w @ [Log Debug, Print]\<rparr>"
  obtain r2 w2 where loop: "attempt_loop env a g (g = ''Left glass'') m [1..m] ?w0 = (r2, w2)"
    by fastforce
  from wp_run [OF loop attempt_loop_counts] obtain x where x: "r2 = Inr x"
    by blast
  have "R ?w0 w2"
    using wp_run [OF loop attempt_loop_invariant [of env a g "g = ''Left glass''" m R, OF step refl trans]] .
  then have "R w w2"
    using quiet trans by blast
  moreover have "snd (attempt_pairing env a g m w) = w2"
    using loop x by (simp add: attempt_pairing_run)
  ultimately show ?thesis
    by (simp add: wp_fst_snd)
qed



text \<open>The flag reaches the durable record before the disconnect.\<close>

lemma attempt_saves_first:
  "wp (attempt env a g (g = ''Left glass'') i m) (\<lambda>r w1. saved_before_disconnect g w w1) w"
  by (simp add: attempt_def attempt_try_def attempt_except_def wp_rules saved_before_disconnect_def
        paired_flag_def split: sum.split)

lemma attempt_pairing_saves_first:
  "wp (attempt_pairing env a g m) (\<lambda>r w1. saved_before_disconnect g w w1) w"
proof (rule attempt_pairing_invariant [where R = "saved_before_disconnect g"])
  show "wp (attempt env a g (g = ''Left glass'') i m) (\<lambda>r w1. saved_before_disconnect g w w1) w"
    for i w
    by (rule attempt_saves_first)
qed (auto simp add: saved_before_disconnect_def)



lemma stuck_attempt:
  assumes "disconnect_always_fails env a"
  shows "wp (attempt env a g (g = ''Left glass'') i m)
           (\<lambda>r w1. r = Inr None \<and> paired_flag g (stored w1)) w"
proof -
  from assms have "connect env t a 20 = Inr ()" "is_connected env t a" "pair env t a = Inr ()"
    "save env t c = Inr ()" for t c
    by (simp_all add: disconnect_always_fails_def)
  moreover have "disconnect env t a \<noteq> Inr x" for t x
  proof -
    from assms obtain e where "disconnect env t a = Inl e"
      unfolding disconnect_always_fails_def by blast
    then show ?thesis
      by simp
  qed
  ultimately show ?thesis
    by (simp add: attempt_def attempt_try_def attempt_except_def wp_rules paired_flag_def
        split: sum.split)
qed

lemma stuck_loop:
  assumes "disconnect_always_fails env a"
  shows "wp (attempt_loop env a g (g = ''Left glass'') m as)
           (\<lambda>r w1. r = Inr None \<and> (as \<noteq> [] \<or> paired_flag g (stored w) \<longrightarrow> paired_flag g (stored w1))) w"
proof (induction as arbitrary: w)
  case Nil
  show ?case by (simp add: wp_ret)
next
  case (Cons i rest)
  obtain r1 w1 where first: "attempt env a g (g = ''Left glass'') i m w = (r1, w1)"
    by fastforce
  obtain r2 w2 where loop: "attempt_loop env a g (g = ''Left glass'') m rest w1 = (r2, w2)"
    by fastforce
  note a = wp_run [OF first stuck_attempt [OF assms]]
  note b = wp_run [OF loop Cons.IH]
  have "attempt_loop env a g (g = ''Left glass'') m (i # rest) w = (r2, w2)"
    using first loop a by (simp add: or_else_def bnd_def)
  then show ?case
    using a b by (simp add: wp_def)
qed

section \<open>The claims about \<^verbatim>\<open>_attempt_pairing\<close>\<close>




text \<open>
  C9. \<^verbatim>\<open>_attempt_pairing\<close> is not atomic with respect to the Config Store. In every
  execution in which it invokes a disconnect, the side's flag is true in the durable
  record when it returns, whatever it returns: the flag is set and saved before the
  disconnect and the query of the initial state. And in every environment where, for
  the address, connecting, pairing and saving complete and every disconnect raises, it
  returns false for any \<open>max_attempts\<close> of at least 1 while the durable record has the
  flag set.
\<close>

theorem attempt_pairing_not_atomic:
  assumes "attempt_pairing env address glass_name max_attempts w = (r, w')"
  shows "(number_of is_disconnect (trace w) < number_of is_disconnect (trace w')
            \<longrightarrow> paired_flag glass_name (stored w'))
       \<and> (1 \<le> max_attempts \<and> disconnect_always_fails env address
            \<longrightarrow> r = Inr False \<and> paired_flag glass_name (stored w'))"
proof -
  have "saved_before_disconnect glass_name w w'"
    using wp_run [OF assms attempt_pairing_saves_first] .
  moreover have "r = Inr False \<and> paired_flag glass_name (stored w')"
    if m: "1 \<le> max_attempts" and env: "disconnect_always_fails env address"
  proof -
    let ?w0 = "w\<lparr>trace := trace w @ [Log Debug, Print]\<rparr>"
    obtain r2 w2 where loop:
      "attempt_loop env address glass_name (glass_name = ''Left glass'') max_attempts
         [1..max_attempts] ?w0 = (r2, w2)"
      by fastforce
    from m have "[1..max_attempts] \<noteq> []"
      by simp
    with wp_run [OF loop stuck_loop [OF env]]
    have r2: "r2 = Inr None" and flag: "paired_flag glass_name (stored w2)"
      by simp_all
    have "attempt_pairing env address glass_name max_attempts w = (Inr False, w2)"
      using loop r2 by (simp add: attempt_pairing_run)
    with assms flag show ?thesis
      by simp
  qed
  ultimately show ?thesis
    by (simp add: saved_before_disconnect_def)
qed

theorem attempt_pairing_not_atomic_witness:
  "disconnect_always_fails stuck_env ''AA''
   \<and> fst (attempt_pairing stuck_env ''AA'' ''Left glass'' 3 fresh_world) = Inr False
   \<and> left_paired (stored (snd (attempt_pairing stuck_env ''AA'' ''Left glass'' 3 fresh_world)))
   \<and> \<not> left_paired (stored fresh_world)"
proof -
  have "disconnect_always_fails stuck_env ''AA''"
    by (simp add: disconnect_always_fails_def env_defs)
  then show ?thesis
    using attempt_pairing_not_atomic [where env = stuck_env and address = "''AA''"
      and glass_name = "''Left glass''" and max_attempts = 3 and w = fresh_world,
      OF prod.collapse [symmetric]]
    by (simp add: paired_flag_def fresh_world_def blank_config_def)
qed

section \<open>The claims about \<^verbatim>\<open>set_silent_mode\<close>\<close>












section \<open>The claims about \<^verbatim>\<open>verify_pairing\<close> and \<^verbatim>\<open>unpair_glasses\<close>\<close>

text \<open>
  C7. If the saved address of either side is missing from the config object (it is
  \<^verbatim>\<open>None\<close> or empty), \<^verbatim>\<open>verify_pairing\<close> returns false, and all it does is write two
  log entries: no connection is attempted, no collaborator is called.
\<close>

theorem verify_pairing_without_addresses:
  assumes "\<not> truthy (left_address (config w)) \<or> \<not> truthy (right_address (config w))"
  shows "verify_pairing env w = (Inr False, w\<lparr>trace := trace w @ [Log Debug, Log Debug]\<rparr>)
       \<and> number_of is_connect (trace (snd (verify_pairing env w))) = number_of is_connect (trace w)
       \<and> number_of is_call (trace (snd (verify_pairing env w))) = number_of is_call (trace w)"
proof -
  have "verify_pairing env w = (Inr False, w\<lparr>trace := trace w @ [Log Debug, Log Debug]\<rparr>)"
    using assms
    by (auto simp add: verify_pairing_def verify_pairing_try_def run_defs truthy_def
        split: option.splits list.splits)
  then show ?thesis
    by simp
qed

theorem verify_pairing_without_addresses_witness:
  "\<not> truthy (left_address (config fresh_world))
   \<and> fst (verify_pairing calm_env fresh_world) = Inr False
   \<and> number_of is_connect (trace (snd (verify_pairing calm_env fresh_world))) = 0"
  using verify_pairing_without_addresses [of fresh_world calm_env]
  by (simp add: truthy_def fresh_world_def blank_config_def)

text \<open>
  C10. \<^verbatim>\<open>unpair_glasses\<close> clears the paired flags, the addresses and the display names
  of the config object in memory and writes one log entry. It never calls \<^verbatim>\<open>save()\<close>,
  and the durable record is, after every call, what it was before.
\<close>

theorem unpair_glasses_in_memory_only:
  "unpair_glasses w =
     (Inr (), w\<lparr>config := (config w)
                  \<lparr>left_paired := False, right_paired := False,
                   left_address := None, right_address := None,
                   left_name := None, right_name := None\<rparr>,
                trace := trace w @ [Log Info]\<rparr>)
   \<and> stored (snd (unpair_glasses w)) = stored w
   \<and> number_of is_save (trace (snd (unpair_glasses w))) = number_of is_save (trace w)"
  by (simp add: unpair_glasses_def unpair_glasses_try_def run_defs)

section \<open>The claims about \<^verbatim>\<open>discover_glasses\<close>\<close>

lemma classify_run:
  "classify ds acc w = (Inr (found ds acc), w\<lparr>trace := trace w @ replicate (hits ds) (Log Info)\<rparr>)"
proof (induction ds arbitrary: acc w)
  case Nil
  show ?case by (simp add: ret_def hits_def)
next
  case (Cons d ds)
  show ?case
  proof (cases "dev_name d")
    case None
    then show ?thesis
      by (simp add: Cons.IH is_left_unit_def is_right_unit_def hits_def)
  next
    case (Some n)
    then show ?thesis
      by (simp add: Cons.IH is_left_unit_def is_right_unit_def hits_def unit_of_def run_defs
          replicate_append_same fun_upd_def)
  qed
qed

lemma find_snoc:
  "find P (xs @ [x]) = (case find P xs of Some y \<Rightarrow> Some y | None \<Rightarrow> if P x then Some x else None)"
  by (induction xs) simp_all

lemma latest_Cons:
  "latest P (d # ds) =
     (case latest P ds of Some u \<Rightarrow> Some u | None \<Rightarrow> if P d then Some (unit_of d) else None)"
  by (simp add: latest_def find_snoc split: option.splits)

lemma latest_Nil: "latest P [] = None"
  by (simp add: latest_def)

lemma not_both_units: "is_left_unit d \<Longrightarrow> \<not> is_right_unit d"
  by (simp add: is_left_unit_def is_right_unit_def split: option.splits)

lemma found_latest:
  "found ds acc Left = (case latest is_left_unit ds of Some u \<Rightarrow> Some u | None \<Rightarrow> acc Left)"
  "found ds acc Right = (case latest is_right_unit ds of Some u \<Rightarrow> Some u | None \<Rightarrow> acc Right)"
  by (induction ds arbitrary: acc)
     (auto simp add: latest_Nil latest_Cons not_both_units split: option.splits)

lemma discover_glasses_scanned:
  assumes "discover env (now w + 1) timeout = Inr ds"
  shows "discover_glasses env timeout w =
     (Inr (found ds Map.empty),
      w\<lparr>trace := trace w @ [Log Info, Ev (Discover timeout) None] @ replicate (hits ds) (Log Info)
                   @ [LoopTime (loop_time env (now w + 2 + hits ds))],
        discovery_cache := found ds Map.empty,
        last_scan := loop_time env (now w + 2 + hits ds)\<rparr>)"
  using assms
  by (simp add: discover_glasses_def discover_glasses_try_def run_defs await_def raised_def
      clock_def classify_run Let_def now_def)


lemma number_of_replicate [simp]:
  "number_of P (replicate n x) = (if P x then n else 0)"
  by (simp add: number_of_def)


text \<open>
  C5, as the code has it. For every scan result (the answer to the scan, which is the
  call that follows the first log entry), \<^verbatim>\<open>discover_glasses\<close> returns and
  caches a dictionary in which the left entry is the device observed last among those
  with a non-empty name containing \<^verbatim>\<open>_L_\<close>, and the right entry is the device observed
  last among those with a non-empty name containing \<^verbatim>\<open>_R_\<close> and not \<^verbatim>\<open>_L_\<close>. A side
  with no such device has no entry, so devices with no name, an empty name or a name
  with neither marker are not in the result.
\<close>

theorem discover_glasses_classification:
  assumes "discover env (now w + 1) timeout = Inr devices"
  shows "fst (discover_glasses env timeout w)
           = Inr (discovery_cache (snd (discover_glasses env timeout w)))
       \<and> discovery_cache (snd (discover_glasses env timeout w)) Left
           = latest is_left_unit devices
       \<and> discovery_cache (snd (discover_glasses env timeout w)) Right
           = latest is_right_unit devices"
  by (simp add: discover_glasses_scanned [OF assms] found_latest split: option.splits)

lemma str_in_code [simp]:
  "str_in [] ys = True"
  "str_in (x # xs) [] = False"
  "str_in (x # xs) (y # ys) = (prefix (x # xs) (y # ys) \<or> str_in (x # xs) ys)"
  by (simp_all add: str_in_def sublist_Cons_right)

theorem discover_glasses_classification_witness:
  "discover calm_env (now fresh_world + 1) 15 = Inr two_units
   \<and> discovery_cache (snd (discover_glasses calm_env 15 fresh_world)) Left
       = Some \<lparr>info_address = ''AA'', info_name = ''G1_L_42'', info_rssi = -40\<rparr>
   \<and> discovery_cache (snd (discover_glasses calm_env 15 fresh_world)) Right
       = Some \<lparr>info_address = ''BB'', info_name = ''G1_R_42'', info_rssi = -42\<rparr>"
proof -
  have "discover calm_env (now fresh_world + 1) 15 = Inr two_units"
    by (simp add: calm_env_def)
  from discover_glasses_classification [OF this] show ?thesis
    by (simp add: calm_env_def two_units_def latest_def is_left_unit_def is_right_unit_def
        unit_of_def)
qed

text \<open>
  C5, as it is stated, fails for a name that carries both markers: the device is
  classified as left only, and the result has no right entry although the name
  contains \<^verbatim>\<open>_R_\<close>.
\<close>

theorem discover_glasses_classification_counterexample:
  "str_in ''_R_'' ''G1_L_R_7''
   \<and> fst (discover_glasses both_markers_env 15 fresh_world)
       = Inr [Left \<mapsto> \<lparr>info_address = ''AA'', info_name = ''G1_L_R_7'', info_rssi = -40\<rparr>]
   \<and> discovery_cache (snd (discover_glasses both_markers_env 15 fresh_world)) Right = None"
proof -
  have "discover both_markers_env (now fresh_world + 1) 15
      = Inr [\<lparr>dev_address = ''AA'', dev_name = Some ''G1_L_R_7'', dev_rssi = -40\<rparr>]"
    by (simp add: both_markers_env_def calm_env_def)
  then show ?thesis
    by (simp add: discover_glasses_scanned is_left_unit_def is_right_unit_def unit_of_def)
qed

section \<open>The claims about \<^verbatim>\<open>pair_glasses\<close>\<close>







section \<open>The claims about the second pass of \<^verbatim>\<open>verify_pairing\<close>\<close>

text \<open>A first pass that runs to its end has made two probes, and both completed.\<close>

lemma first_verification_passed:
  assumes "first_verification env [(s1, a1), (s2, a2)] w = (Inr None, w1)"
  shows "w1 = w\<lparr>trace := trace w @ [Ev (Connect a1 5) None, Ev (Disconnect a1) None, Log Debug,
                                     Ev (Connect a2 5) None, Ev (Disconnect a2) None, Log Debug]\<rparr>"
proof -
  have "wp (first_verification env [(s1, a1), (s2, a2)]) (\<lambda>r w1. r = Inr None \<longrightarrow>
      w1 = w\<lparr>trace := trace w @ [Ev (Connect a1 5) None, Ev (Disconnect a1) None, Log Debug,
                                     Ev (Connect a2 5) None, Ev (Disconnect a2) None, Log Debug]\<rparr>) w"
    by (simp add: wp_rules split: sum.split)
  from wp_run [OF assms this] show ?thesis
    by simp
qed


text \<open>The second pass, from the state \<open>w\<close> in which it starts.\<close>

lemma second_verification_effect:
  "wp (second_verification env [(Left, la), (Right, ra)]) (\<lambda>r w1.
      (r = Inr None \<or> r = Inr (Some False)) \<and> answered w w1
      \<and> stored w1 = stored w
      \<and> number_of is_save (trace w1) = number_of is_save (trace w)
      \<and> number_of is_connect (trace w) < number_of is_connect (trace w1)
      \<and> (r = Inr None \<longrightarrow>
            config w1 = (config w)\<lparr>left_paired := True, right_paired := True\<rparr>
            \<and> number_of is_raise (trace w1) = number_of is_raise (trace w)
            \<and> number_of is_pair (trace w1) = number_of is_pair (trace w) + 2
            \<and> number_of is_disconnected (trace w1) = number_of is_disconnected (trace w) + 2)
      \<and> (number_of is_disconnected (trace w) < number_of is_disconnected (trace w1)
            \<longrightarrow> left_paired (config w1))
      \<and> (number_of is_disconnected (trace w) + 1 < number_of is_disconnected (trace w1)
            \<longrightarrow> right_paired (config w1))) w"
  by (simp add: wp_rules answered_def split: sum.split)

lemma first_time_pairing_effect:
  assumes "\<not> left_paired (config w) \<or> \<not> right_paired (config w)"
  shows "wp (first_time_pairing env la ra) (\<lambda>r w1.
      (r = Inr (Some True) \<or> r = Inr (Some False) \<or> (\<exists>e. r = Inl e))
      \<and> (case r of Inl e \<Rightarrow> answered w (w1\<lparr>trace := trace w1 @ [Log Error]\<rparr>)
          | Inr v \<Rightarrow> answered w w1)
      \<and> number_of is_save (trace w1) \<le> number_of is_save (trace w) + 1
      \<and> number_of is_connect (trace w) < number_of is_connect (trace w1)
      \<and> (r = Inr (Some True) \<longrightarrow>
            number_of is_raise (trace w1) = number_of is_raise (trace w)
            \<and> number_of is_pair (trace w1) = number_of is_pair (trace w) + 2
            \<and> left_paired (config w1) \<and> right_paired (config w1) \<and> stored w1 = config w1)
      \<and> (number_of is_save (trace w) < number_of is_save (trace w1) \<longrightarrow>
            left_paired (config w1) \<and> right_paired (config w1)
            \<and> number_of is_disconnected (trace w1) = number_of is_disconnected (trace w) + 2)
      \<and> (number_of is_disconnected (trace w) < number_of is_disconnected (trace w1)
            \<longrightarrow> left_paired (config w1))
      \<and> (number_of is_disconnected (trace w) + 1 < number_of is_disconnected (trace w1)
            \<longrightarrow> right_paired (config w1))) w"
proof -
  let ?w0 = "w\<lparr>trace := trace w @ [Log Info, Log Info, Log Info, Log Info, Log Debug]\<rparr>"
  obtain r2 w2 where second:
    "second_verification env [(Left, la), (Right, ra)] ?w0 = (r2, w2)"
    by fastforce
  note s = wp_run [OF second second_verification_effect]
  have run: "first_time_pairing env la ra w =
      (case r2 of
         Inr None \<Rightarrow>
           (case save env (now w2) (config w2) of
              Inl e \<Rightarrow> (Inl e, w2\<lparr>trace := trace w2 @ [Ev Save (Some e)]\<rparr>)
            | Inr u \<Rightarrow> (Inr (Some True),
                        w2\<lparr>trace := trace w2 @ [Ev Save None, Log Info], stored := config w2\<rparr>))
       | _ \<Rightarrow> (r2, w2))"
    using assms second s
    by (auto simp add: first_time_pairing_def run_defs config_save_def raised_def Let_def
        split: sum.splits)
  have a0: "answered w ?w0"
    by (simp add: answered_def)
  have a2: "answered w w2"
    using answered_trans [OF a0] s by blast
  have a3: "answered w (w2\<lparr>trace := trace w2 @ [Ev Save (Some e), Log Error]\<rparr>)"
    and a4: "answered w (w2\<lparr>trace := trace w2 @ [Ev Save None, Log Info], stored := c\<rparr>)" for e c
    using a2 by (auto simp add: answered_iff intro!: logged_append)
  show ?thesis
    using s a2 a3 a4 by (auto simp add: wp_def run split: sum.splits)
qed

text \<open>
  C2. When \<^verbatim>\<open>verify_pairing\<close> finds both saved addresses, both probes of the first
  pass complete (the first loop runs to its end, into a state \<open>w1\<close>), and the flag of at
  least one side is unset, then:
  \<^item> it makes a second pass, which connects at least once more;
  \<^item> it returns true or false, and true only if no call raised during the whole
    operation and the pairing handshake was made twice, once per side; then both flags
    are set and the durable record equals the config object;
  \<^item> it calls \<^verbatim>\<open>save()\<close> at most once, and only after both sides have completed their
    disconnect in the second pass and both flags are set;
  \<^item> a side whose connect, handshake and disconnect completed in the second pass has
    its flag set: the first disconnect completed after the first pass is the left
    side's, the second the right side's.
\<close>

theorem verify_pairing_second_pass:
  assumes "left_address (config w) = Some la" and "la \<noteq> []"
    and "right_address (config w) = Some ra" and "ra \<noteq> []"
    and "first_verification env [(Left, la), (Right, ra)] (w\<lparr>trace := trace w @ [Log Debug]\<rparr>)
           = (Inr None, w1)"
    and "\<not> left_paired (config w) \<or> \<not> right_paired (config w)"
    and "verify_pairing env w = (r, w')"
  shows "number_of is_connect (trace w1) < number_of is_connect (trace w')
     \<and> (r = Inr True \<or> r = Inr False)
     \<and> (r = Inr True \<longrightarrow>
           number_of is_raise (trace w') = number_of is_raise (trace w)
           \<and> number_of is_pair (trace w') = number_of is_pair (trace w) + 2
           \<and> left_paired (config w') \<and> right_paired (config w') \<and> stored w' = config w')
     \<and> number_of is_save (trace w') \<le> number_of is_save (trace w) + 1
     \<and> (number_of is_save (trace w) < number_of is_save (trace w') \<longrightarrow>
           left_paired (config w') \<and> right_paired (config w')
           \<and> number_of is_disconnected (trace w') = number_of is_disconnected (trace w1) + 2)
     \<and> (number_of is_disconnected (trace w1) < number_of is_disconnected (trace w')
           \<longrightarrow> left_paired (config w'))
     \<and> (number_of is_disconnected (trace w1) + 1 < number_of is_disconnected (trace w')
           \<longrightarrow> right_paired (config w'))"
proof -
  note w1 = first_verification_passed [OF assms(5)]
  from assms(2,4) obtain a la' b ra' where la: "la = a # la'" and ra: "ra = b # ra'"
    by (cases la; cases ra) auto
  have unpaired: "\<not> left_paired (config w1) \<or> \<not> right_paired (config w1)"
    using assms(6) w1 by simp
  obtain r2 w2 where second: "first_time_pairing env la ra w1 = (r2, w2)"
    by fastforce
  note s = wp_run [OF second first_time_pairing_effect [OF unpaired]]
  have run: "verify_pairing env w =
      (case r2 of
         Inl e \<Rightarrow> (Inr False, w2\<lparr>trace := trace w2 @ [Log Error]\<rparr>)
       | Inr None \<Rightarrow> (Inr True, w2)
       | Inr (Some v) \<Rightarrow> (Inr v, w2))"
    using assms(1,3,5) second la ra
    by (simp add: verify_pairing_def verify_pairing_try_def run_defs
        split: sum.splits option.splits)
  show ?thesis
    using s assms(7) w1
    by (auto simp add: run split: sum.splits option.splits)
qed

theorem verify_pairing_second_pass_witness:
  "first_verification calm_env [(Left, ''AA''), (Right, ''BB'')]
      (addressed_world\<lparr>trace := trace addressed_world @ [Log Debug]\<rparr>)
     = (Inr None,
        addressed_world\<lparr>trace := [Log Debug, Ev (Connect ''AA'' 5) None, Ev (Disconnect ''AA'') None,
           Log Debug, Ev (Connect ''BB'' 5) None, Ev (Disconnect ''BB'') None, Log Debug]\<rparr>)
   \<and> fst (verify_pairing calm_env addressed_world) = Inr True
   \<and> left_paired (stored (snd (verify_pairing calm_env addressed_world)))
   \<and> right_paired (stored (snd (verify_pairing calm_env addressed_world)))
   \<and> number_of is_save (trace (snd (verify_pairing calm_env addressed_world))) \<le> 1"
proof -
  have first: "first_verification calm_env [(Left, ''AA''), (Right, ''BB'')]
      (addressed_world\<lparr>trace := trace addressed_world @ [Log Debug]\<rparr>)
     = (Inr None,
        addressed_world\<lparr>trace := [Log Debug, Ev (Connect ''AA'' 5) None, Ev (Disconnect ''AA'') None,
           Log Debug, Ev (Connect ''BB'' 5) None, Ev (Disconnect ''BB'') None, Log Debug]\<rparr>)"
    by (simp add: run_defs await_def raised_def now_def env_defs addressed_world_def)
  have "wp (verify_pairing calm_env) (\<lambda>r w'. r = Inr True) addressed_world"
    by (simp add: verify_pairing_def verify_pairing_try_def first_time_pairing_def wp_rules
        env_defs addressed_world_def)
  then have "fst (verify_pairing calm_env addressed_world) = Inr True"
    by (simp add: wp_fst_snd)
  then show ?thesis
    using first verify_pairing_second_pass [where env = calm_env and w = addressed_world
      and la = "''AA''" and ra = "''BB''", OF _ _ _ _ first _ prod.collapse [symmetric]]
    by (simp add: addressed_world_def env_defs)
qed

section \<open>No exception crosses the boundary of a public operation\<close>





end
